theory Spec2Isabelle
  imports Complex_Main "HOL-Library.Word"
begin

section \<open>Python values used by the client\<close>

text \<open>
  A Python \<open>bytes\<close> object is a list of octets; a Python \<open>str\<close> is a list of Unicode
  code points (\<open>ord\<close> of each character).  String literals of the source are written
  with \<open>ustr\<close>.  Exceptions are values of \<open>error\<close>; a function that can raise returns
  \<open>error + 'a\<close> with \<open>Inl\<close> for the exception.
\<close>

type_synonym byte = "8 word"
type_synonym str = "nat list"

datatype error =
    ValueError
  | TypeError
  | AttributeError
  | UnicodeEncodeError
  | UnicodeDecodeError
  | JSONDecodeError
  | OSError
  | URLError
  | TimeoutError

definition ustr :: "string \<Rightarrow> str" where
  "ustr cs = map of_char cs"

definition slice :: "'a list \<Rightarrow> nat \<Rightarrow> nat \<Rightarrow> 'a list" where
  \<comment> \<open>\<open>xs[start:stop]\<close> for \<open>0 \<le> start\<close>, \<open>0 \<le> stop\<close>\<close>
  "slice xs start stop = take (stop - start) (drop start xs)"

section \<open>base64\<close>

definition b64_alphabet :: str where
  "b64_alphabet = ustr ''ABCDEFGHIJKLMNOPQRSTUVWXYZabcdefghijklmnopqrstuvwxyz0123456789+/''"

definition b64_char :: "nat \<Rightarrow> byte" where
  "b64_char i = of_nat (b64_alphabet ! (i mod 64))"

fun b64encode :: "byte list \<Rightarrow> byte list" where
  "b64encode [] = []"
| "b64encode [a] =
    (let n = unat a * 65536
     in [b64_char (n div 262144), b64_char (n div 4096), 61, 61])"
| "b64encode [a, b] =
    (let n = unat a * 65536 + unat b * 256
     in [b64_char (n div 262144), b64_char (n div 4096), b64_char (n div 64), 61])"
| "b64encode (a # b # c # rest) =
    (let n = unat a * 65536 + unat b * 256 + unat c
     in b64_char (n div 262144) # b64_char (n div 4096) # b64_char (n div 64) # b64_char n
        # b64encode rest)"

fun b64_index :: "nat \<Rightarrow> nat option" where
  "b64_index c =
    (if 65 \<le> c \<and> c \<le> 90 then Some (c - 65)
     else if 97 \<le> c \<and> c \<le> 122 then Some (c - 71)
     else if 48 \<le> c \<and> c \<le> 57 then Some (c + 4)
     else if c = 43 then Some 62
     else if c = 47 then Some 63
     else None)"

text \<open>
  \<open>base64.b64decode\<close> on text made of complete groups of four alphabet characters, the
  last group possibly padded with \<open>=\<close>.  The client decodes one constant only, which has
  this form; any other text is reported as an error here.
\<close>

fun b64decode :: "str \<Rightarrow> error + byte list" where
  "b64decode [] = Inr []"
| "b64decode (a # b # c # d # rest) =
    (case (b64_index a, b64_index b) of
       (Some x, Some y) \<Rightarrow>
         (if c = 61 \<and> d = 61 \<and> rest = [] then Inr [of_nat ((x * 64 + y) div 16)]
          else (case b64_index c of
             None \<Rightarrow> Inl ValueError
           | Some z \<Rightarrow>
              (if d = 61 \<and> rest = [] then
                 (let n = (x * 64 + y) * 64 + z
                  in Inr [of_nat (n div 1024), of_nat (n div 4 mod 256)])
               else (case b64_index d of
                  None \<Rightarrow> Inl ValueError
                | Some w \<Rightarrow>
                   (let n = ((x * 64 + y) * 64 + z) * 64 + w in
                    (case b64decode rest of
                       Inl e \<Rightarrow> Inl e
                     | Inr bs \<Rightarrow>
                         Inr (of_nat (n div 65536) # of_nat (n div 256 mod 256)
                              # of_nat (n mod 256) # bs)))))))
     | _ \<Rightarrow> Inl ValueError)"
| "b64decode _ = Inl ValueError"

section \<open>The public key\<close>

definition RSA_PUBLIC_KEY_B64 :: str where
  "RSA_PUBLIC_KEY_B64 = ustr (
    ''MIGfMA0GCSqGSIb3DQEBAQUAA4GNADCBiQKBgQC4LF40GZ72SdhMyl765K/i4nY5'' @
    ''CPcHz2Q1IKWKZ9S79xmK7G8pUhbVf4EZLvnNF1+9IvOFQUKV5Z7ZNNviqSpnql9'' @
    ''tAT+8+J/He0R7pcirvVSxgdr2i9V/C/gmqAEZ5qVTzRnd3uWdFoKzPdEBxP0Ipor'' @
    ''J1VBbCv90yBSOhVxO+QIDAQAB'')"

definition RSA_KEY_BYTES :: nat where
  "RSA_KEY_BYTES = 128"

definition RSA_MAX_PLAIN_BLOCK :: nat where
  "RSA_MAX_PLAIN_BLOCK = 117"

record rsa_public_key =
  modulus :: nat
  public_exponent :: nat
  key_bytes :: nat

definition os2ip :: "byte list \<Rightarrow> nat" where
  \<comment> \<open>octet string to integer, big endian (RFC 8017, 4.2)\<close>
  "os2ip bs = foldl (\<lambda>acc b. acc * 256 + unat b) 0 bs"

definition i2osp :: "nat \<Rightarrow> nat \<Rightarrow> error + byte list" where
  \<comment> \<open>integer to octet string of the given length, big endian (RFC 8017, 4.1)\<close>
  "i2osp x l =
    (if 256 ^ l \<le> x then Inl ValueError
     else Inr (map (\<lambda>j. of_nat (x div 256 ^ (l - 1 - j) mod 256)) [0..<l]))"

definition spki_rsa1024_prefix :: "byte list" where
  "spki_rsa1024_prefix =
    [0x30, 0x81, 0x9F, 0x30, 0x0D, 0x06, 0x09, 0x2A, 0x86, 0x48, 0x86, 0xF7, 0x0D, 0x01,
     0x01, 0x01, 0x05, 0x00, 0x03, 0x81, 0x8D, 0x00, 0x30, 0x81, 0x89, 0x02, 0x81, 0x81, 0x00]"

text \<open>
  \<open>load_der_public_key\<close> of the \<open>cryptography\<close> package, for the one layout the
  embedded key has: a SubjectPublicKeyInfo of 162 octets whose RSAPublicKey holds a
  modulus of 128 octets (after its leading zero octet) and an exponent of 3 octets.
  Every other input is reported as the error the package raises for a malformed key.
\<close>

definition load_der_public_key :: "byte list \<Rightarrow> error + rsa_public_key" where
  "load_der_public_key der =
    (if length der = 162 \<and> take 29 der = spki_rsa1024_prefix
        \<and> take 2 (drop 157 der) = [0x02, 0x03]
     then Inr \<lparr> modulus = os2ip (take 128 (drop 29 der)),
                public_exponent = os2ip (drop 159 der),
                key_bytes = 128 \<rparr>
     else Inl ValueError)"

definition load_rsa_public_key :: "error + rsa_public_key" where
  "load_rsa_public_key =
    (case b64decode RSA_PUBLIC_KEY_B64 of
       Inl e \<Rightarrow> Inl e
     | Inr der \<Rightarrow> load_der_public_key der)"

section \<open>Chunked RSA encryption\<close>

text \<open>
  \<open>pub_key.encrypt(block, padding.PKCS1v15())\<close> is RSAES-PKCS1-v1_5 encryption
  (RFC 8017, 7.2.1): a message longer than \<open>k - 11\<close> octets is refused; otherwise the
  encoded message is \<open>0x00 || 0x02 || PS || 0x00 || M\<close> where \<open>PS\<close> consists of
  \<open>k - mLen - 3\<close> nonzero octets that the library draws at random on every call, and the
  ciphertext is the \<open>k\<close>-octet representation of the encoded message raised to the public
  exponent modulo the modulus.  The padding octets of a call are an explicit argument
  \<open>pad\<close> (octet \<open>j\<close> of the padding string is \<open>pad j\<close>).
\<close>

definition eme_pkcs1_v15 :: "nat \<Rightarrow> (nat \<Rightarrow> byte) \<Rightarrow> byte list \<Rightarrow> byte list" where
  "eme_pkcs1_v15 k pad m = 0x00 # 0x02 # map pad [0..<k - length m - 3] @ 0x00 # m"

definition rsaep :: "rsa_public_key \<Rightarrow> nat \<Rightarrow> nat" where
  "rsaep pub_key m = m ^ public_exponent pub_key mod modulus pub_key"

definition pkcs1v15_encrypt ::
  "rsa_public_key \<Rightarrow> (nat \<Rightarrow> byte) \<Rightarrow> byte list \<Rightarrow> error + byte list" where
  "pkcs1v15_encrypt pub_key pad m =
    (let k = key_bytes pub_key in
     if k < length m + 11 then Inl ValueError
     else i2osp (rsaep pub_key (os2ip (eme_pkcs1_v15 k pad m))) k)"

text \<open>
  The random padding of the \<open>i\<close>-th call of \<open>pub_key.encrypt\<close> within one run of
  \<open>rsa_encrypt\<close> is \<open>rnd i\<close>.
\<close>

type_synonym entropy = "nat \<Rightarrow> nat \<Rightarrow> byte"

fun rsa_encrypt_loop ::
  "rsa_public_key \<Rightarrow> entropy \<Rightarrow> byte list \<Rightarrow> nat list \<Rightarrow> byte list \<Rightarrow> error + byte list" where
  "rsa_encrypt_loop pub_key rnd plaintext [] ciphertext = Inr ciphertext"
| "rsa_encrypt_loop pub_key rnd plaintext (i # is) ciphertext =
    (let start = i * RSA_MAX_PLAIN_BLOCK;
         stop = min (start + RSA_MAX_PLAIN_BLOCK) (length plaintext);
         block = slice plaintext start stop
     in case pkcs1v15_encrypt pub_key (rnd i) block of
          Inl e \<Rightarrow> Inl e
        | Inr encrypted \<Rightarrow> rsa_encrypt_loop pub_key rnd plaintext is (ciphertext @ encrypted))"

text \<open>
  \<open>math.ceil(len(plaintext) / RSA_MAX_PLAIN_BLOCK)\<close> is taken over the reals: the
  source divides in double precision, which is exact for every length a \<open>bytes\<close> object
  can have in practice (below \<open>2^46\<close>).
\<close>

definition rsa_encrypt :: "entropy \<Rightarrow> byte list \<Rightarrow> error + byte list" where
  "rsa_encrypt rnd plaintext =
    (case load_rsa_public_key of
       Inl e \<Rightarrow> Inl e
     | Inr pub_key \<Rightarrow>
        (let num_blocks = nat \<lceil>real (length plaintext) / real RSA_MAX_PLAIN_BLOCK\<rceil>
         in rsa_encrypt_loop pub_key rnd plaintext [0..<num_blocks] []))"

section \<open>UTF-8\<close>

text \<open>
  \<open>s.encode("utf-8")\<close>: a surrogate code point cannot be encoded and raises
  \<open>UnicodeEncodeError\<close>.  (A Python \<open>str\<close> holds no value above \<open>0x10FFFF\<close>; the
  model reports such a value as the same error.)
\<close>

definition utf8_encode_char :: "nat \<Rightarrow> error + byte list" where
  "utf8_encode_char c =
    (if c < 0x80 then Inr [of_nat c]
     else if c < 0x800 then Inr [of_nat (0xC0 + c div 64), of_nat (0x80 + c mod 64)]
     else if c < 0x10000 then
       (if 0xD800 \<le> c \<and> c \<le> 0xDFFF then Inl UnicodeEncodeError
        else Inr [of_nat (0xE0 + c div 4096), of_nat (0x80 + c div 64 mod 64),
                  of_nat (0x80 + c mod 64)])
     else if c < 0x110000 then
       Inr [of_nat (0xF0 + c div 262144), of_nat (0x80 + c div 4096 mod 64),
            of_nat (0x80 + c div 64 mod 64), of_nat (0x80 + c mod 64)]
     else Inl UnicodeEncodeError)"

fun utf8_encode :: "str \<Rightarrow> error + byte list" where
  "utf8_encode [] = Inr []"
| "utf8_encode (c # cs) =
    (case utf8_encode_char c of
       Inl e \<Rightarrow> Inl e
     | Inr bs \<Rightarrow> (case utf8_encode cs of Inl e \<Rightarrow> Inl e | Inr rest \<Rightarrow> Inr (bs @ rest)))"

definition is_continuation :: "nat \<Rightarrow> bool" where
  "is_continuation b = (0x80 \<le> b \<and> b \<le> 0xBF)"

text \<open>
  One step of CPython's UTF-8 decoder on a non-empty input (octets as numbers): either
  \<open>(Some c, n)\<close>, a code point made of the first \<open>n\<close> octets, or \<open>(None, n)\<close>, an
  ill-formed sequence of \<open>n\<close> octets (an invalid start byte, the octets before an invalid
  continuation byte, or all that is left of a truncated sequence).
\<close>

fun utf8_next :: "nat list \<Rightarrow> nat option \<times> nat" where
  "utf8_next [] = (None, 1)"
| "utf8_next (b0 # bs) =
    (if b0 < 0x80 then (Some b0, 1)
     else if b0 < 0xC2 then (None, 1)
     else if b0 < 0xE0 then
       (case bs of
          [] \<Rightarrow> (None, 1)
        | b1 # _ \<Rightarrow>
            if is_continuation b1 then (Some ((b0 - 0xC0) * 64 + (b1 - 0x80)), 2)
            else (None, 1))
     else if b0 < 0xF0 then
       (case bs of
          [] \<Rightarrow> (None, 1)
        | b1 # bs1 \<Rightarrow>
            if \<not> is_continuation b1 \<or> (b0 = 0xE0 \<and> b1 < 0xA0) \<or> (b0 = 0xED \<and> 0xA0 \<le> b1)
            then (None, 1)
            else (case bs1 of
               [] \<Rightarrow> (None, 2)
             | b2 # _ \<Rightarrow>
                 if is_continuation b2
                 then (Some ((b0 - 0xE0) * 4096 + (b1 - 0x80) * 64 + (b2 - 0x80)), 3)
                 else (None, 2)))
     else if b0 < 0xF5 then
       (case bs of
          [] \<Rightarrow> (None, 1)
        | b1 # bs1 \<Rightarrow>
            if \<not> is_continuation b1 \<or> (b0 = 0xF0 \<and> b1 < 0x90) \<or> (b0 = 0xF4 \<and> 0x90 \<le> b1)
            then (None, 1)
            else (case bs1 of
               [] \<Rightarrow> (None, 2)
             | b2 # bs2 \<Rightarrow>
                 if \<not> is_continuation b2 then (None, 2)
                 else (case bs2 of
                    [] \<Rightarrow> (None, 3)
                  | b3 # _ \<Rightarrow>
                      if is_continuation b3
                      then (Some ((b0 - 0xF0) * 262144 + (b1 - 0x80) * 4096
                                  + (b2 - 0x80) * 64 + (b3 - 0x80)), 4)
                      else (None, 3))))
     else (None, 1))"

text \<open>
  \<open>b.decode("utf-8", errors)\<close> on the octets as numbers: with \<open>strict\<close> (the
  default handler) an ill-formed sequence raises \<open>UnicodeDecodeError\<close>; otherwise (the
  \<open>replace\<close> handler) it becomes one \<open>U+FFFD\<close> and decoding goes on behind it.
\<close>

function utf8_decode_list :: "bool \<Rightarrow> nat list \<Rightarrow> error + str" where
  "utf8_decode_list strict bs =
    (if bs = [] then Inr []
     else (case utf8_next bs of
        (Some c, n) \<Rightarrow>
          (case utf8_decode_list strict (drop n bs) of
             Inl e \<Rightarrow> Inl e
           | Inr cs \<Rightarrow> Inr (c # cs))
      | (None, n) \<Rightarrow>
          if strict then Inl UnicodeDecodeError
          else (case utf8_decode_list strict (drop n bs) of
             Inl e \<Rightarrow> Inl e
           | Inr cs \<Rightarrow> Inr (0xFFFD # cs))))"
  by pat_completeness auto
termination
proof (relation "measure (\<lambda>(strict, bs). length bs)")
  show "wf (measure (\<lambda>(strict, bs). length bs))" by simp
next
  fix strict :: bool and bs :: "nat list" and x y c
  assume "bs \<noteq> []" and "(x, y) = utf8_next bs"
  then have "0 < y"
    by (cases bs) (auto split: if_splits list.splits)
  with \<open>bs \<noteq> []\<close> show "((strict, drop y bs), strict, bs) \<in> measure (\<lambda>(strict, bs). length bs)"
    by simp
next
  fix strict :: bool and bs :: "nat list" and x y
  assume "bs \<noteq> []" and "(x, y) = utf8_next bs"
  then have "0 < y"
    by (cases bs) (auto split: if_splits list.splits)
  with \<open>bs \<noteq> []\<close> show "((strict, drop y bs), strict, bs) \<in> measure (\<lambda>(strict, bs). length bs)"
    by simp
qed

declare utf8_decode_list.simps [simp del]

definition utf8_decode :: "byte list \<Rightarrow> error + str" where
  "utf8_decode bs = utf8_decode_list True (map unat bs)"

definition utf8_decode_replace :: "byte list \<Rightarrow> str" where
  "utf8_decode_replace bs =
    (case utf8_decode_list False (map unat bs) of Inl e \<Rightarrow> [] | Inr cs \<Rightarrow> cs)"

section \<open>JSON values and \<open>json.dumps\<close>\<close>

text \<open>
  The values \<open>json.loads\<close> produces and \<open>json.dumps\<close> accepts: \<open>None\<close>, \<open>bool\<close>,
  \<open>int\<close>, \<open>float\<close>, \<open>str\<close>, \<open>list\<close> and \<open>dict\<close> with \<open>str\<close> keys (in insertion
  order), and the \<open>tuple\<close>, which \<open>json.dumps\<close> accepts and prints as a \<open>list\<close> but
  \<open>json.loads\<close> never produces.  Floating-point arithmetic is outside this development: a \<open>float\<close> is
  identified with the text \<open>json.dumps\<close> prints for it (\<open>float.__repr__\<close>, or
  \<open>NaN\<close>, \<open>Infinity\<close>, \<open>-Infinity\<close>).
\<close>

datatype json =
    JNull
  | JBool bool
  | JInt int
  | JFloat str
  | JStr str
  | JList "json list"
  | JTuple "json list"
  | JDict "(str \<times> json) list"

type_synonym pydict = "(str \<times> json) list"

definition hex_digit :: "nat \<Rightarrow> nat" where
  "hex_digit d = (if d < 10 then 48 + d else 87 + d)"

definition hex4 :: "nat \<Rightarrow> str" where
  \<comment> \<open>\<open>'{0:04x}'.format(n)\<close> for \<open>n < 0x10000\<close>\<close>
  "hex4 n = [hex_digit (n div 4096 mod 16), hex_digit (n div 256 mod 16),
             hex_digit (n div 16 mod 16), hex_digit (n mod 16)]"

definition escape_char :: "bool \<Rightarrow> nat \<Rightarrow> str" where
  \<comment> \<open>the replacement of one character in \<open>encode_basestring\<close> (\<open>ensure_ascii = False\<close>)
      and \<open>encode_basestring_ascii\<close> (\<open>ensure_ascii = True\<close>)\<close>
  "escape_char ensure_ascii c =
    (if c = 0x5C then [0x5C, 0x5C]
     else if c = 0x22 then [0x5C, 0x22]
     else if c = 0x08 then 0x5C # ustr ''b''
     else if c = 0x0C then 0x5C # ustr ''f''
     else if c = 0x0A then 0x5C # ustr ''n''
     else if c = 0x0D then 0x5C # ustr ''r''
     else if c = 0x09 then 0x5C # ustr ''t''
     else if c < 0x20 then 0x5C # ustr ''u'' @ hex4 c
     else if ensure_ascii \<and> 0x7E < c then
       (if c < 0x10000 then 0x5C # ustr ''u'' @ hex4 c
        else 0x5C # ustr ''u'' @ hex4 (0xD800 + (c - 0x10000) div 1024 mod 1024)
           @ 0x5C # ustr ''u'' @ hex4 (0xDC00 + (c - 0x10000) mod 1024))
     else [c])"

definition encode_basestring :: "bool \<Rightarrow> str \<Rightarrow> str" where
  "encode_basestring ensure_ascii s = 0x22 # concat (map (escape_char ensure_ascii) s) @ [0x22]"

function show_nat :: "nat \<Rightarrow> str" where
  "show_nat n = (if n < 10 then [48 + n] else show_nat (n div 10) @ [48 + n mod 10])"
  by pat_completeness auto
termination
  by (relation "measure id") auto

declare show_nat.simps [simp del]

definition show_int :: "int \<Rightarrow> str" where
  \<comment> \<open>\<open>int.__repr__\<close>\<close>
  "show_int i = (if i < 0 then 0x2D # show_nat (nat (- i)) else show_nat (nat i))"

fun join :: "'a list \<Rightarrow> 'a list list \<Rightarrow> 'a list" where
  \<comment> \<open>\<open>sep.join(parts)\<close>\<close>
  "join sep [] = []"
| "join sep [x] = x"
| "join sep (x # y # ys) = x @ sep @ join sep (y # ys)"

text \<open>
  \<open>json.dumps(obj, ensure_ascii=..., separators=(item_separator, key_separator))\<close>
  without indentation.
\<close>

fun json_dumps :: "bool \<Rightarrow> str \<Rightarrow> str \<Rightarrow> json \<Rightarrow> str" where
  "json_dumps ea isep ksep JNull = ustr ''null''"
| "json_dumps ea isep ksep (JBool b) = (if b then ustr ''true'' else ustr ''false'')"
| "json_dumps ea isep ksep (JInt i) = show_int i"
| "json_dumps ea isep ksep (JFloat r) = r"
| "json_dumps ea isep ksep (JStr s) = encode_basestring ea s"
| "json_dumps ea isep ksep (JList xs) =
    0x5B # join isep (map (json_dumps ea isep ksep) xs) @ [0x5D]"
| "json_dumps ea isep ksep (JTuple xs) =
    0x5B # join isep (map (json_dumps ea isep ksep) xs) @ [0x5D]"
| "json_dumps ea isep ksep (JDict kvs) =
    0x7B # join isep (map (\<lambda>(k, v). encode_basestring ea k @ ksep @ json_dumps ea isep ksep v) kvs)
    @ [0x7D]"

definition dumps_compact :: "json \<Rightarrow> str" where
  \<comment> \<open>\<open>json.dumps(obj, ensure_ascii=False, separators=(",", ":"))\<close>\<close>
  "dumps_compact obj = json_dumps False (ustr '','') (ustr '':'') obj"

definition dumps_default :: "bool \<Rightarrow> json \<Rightarrow> str" where
  \<comment> \<open>\<open>json.dumps(obj, ensure_ascii=...)\<close> with the default separators\<close>
  "dumps_default ensure_ascii obj = json_dumps ensure_ascii (ustr '', '') (ustr '': '') obj"

section \<open>Python dictionaries\<close>

text \<open>
  A \<open>dict\<close> is an association list in insertion order with distinct keys.
  \<open>d[k] = v\<close> replaces the value of a key that is present, keeping its position, and
  appends a new key at the back; \<open>d.update(e)\<close> does so for every item of \<open>e\<close> in order.
\<close>

definition dict_get :: "('k \<times> 'v) list \<Rightarrow> 'k \<Rightarrow> 'v option" where
  "dict_get d k = map_of d k"

definition dict_set :: "('k \<times> 'v) list \<Rightarrow> 'k \<Rightarrow> 'v \<Rightarrow> ('k \<times> 'v) list" where
  "dict_set d k v =
    (if k \<in> fst ` set d then map (\<lambda>(k', v'). if k' = k then (k', v) else (k', v')) d
     else d @ [(k, v)])"

definition dict_update :: "('k \<times> 'v) list \<Rightarrow> ('k \<times> 'v) list \<Rightarrow> ('k \<times> 'v) list" where
  "dict_update d e = foldl (\<lambda>acc (k, v). dict_set acc k v) d e"

section \<open>\<open>json.loads\<close>\<close>

definition is_ws :: "nat \<Rightarrow> bool" where
  "is_ws c = (c = 0x20 \<or> c = 0x09 \<or> c = 0x0A \<or> c = 0x0D)"

definition skip_ws :: "str \<Rightarrow> str" where
  "skip_ws s = dropWhile is_ws s"

definition is_digit :: "nat \<Rightarrow> bool" where
  "is_digit c = (48 \<le> c \<and> c \<le> 57)"

definition hex_value :: "nat \<Rightarrow> nat option" where
  "hex_value c =
    (if 48 \<le> c \<and> c \<le> 57 then Some (c - 48)
     else if 97 \<le> c \<and> c \<le> 102 then Some (c - 87)
     else if 65 \<le> c \<and> c \<le> 70 then Some (c - 55)
     else None)"

definition parse_hex4 :: "str \<Rightarrow> nat option" where
  "parse_hex4 s =
    (case s of
       a # b # c # d # _ \<Rightarrow>
         (case (hex_value a, hex_value b, hex_value c, hex_value d) of
            (Some w, Some x, Some y, Some z) \<Rightarrow> Some (((w * 16 + x) * 16 + y) * 16 + z)
          | _ \<Rightarrow> None)
     | _ \<Rightarrow> None)"

definition unescape :: "nat \<Rightarrow> nat option" where
  \<comment> \<open>the character a backslash escape other than \<open>\u\<close> stands for\<close>
  "unescape e =
    (if e = 0x22 \<or> e = 0x5C \<or> e = 0x2F then Some e
     else if e = 0x62 then Some 0x08
     else if e = 0x66 then Some 0x0C
     else if e = 0x6E then Some 0x0A
     else if e = 0x72 then Some 0x0D
     else if e = 0x74 then Some 0x09
     else None)"

definition cons_string :: "nat \<Rightarrow> (str \<times> str) option \<Rightarrow> (str \<times> str) option" where
  "cons_string c res = (case res of None \<Rightarrow> None | Some (t, r) \<Rightarrow> Some (c # t, r))"

text \<open>
  \<open>scanstring\<close> in strict mode, on the text behind the opening quote: the decoded string
  and the text behind the closing quote.  \<open>None\<close> is \<open>JSONDecodeError\<close>.
\<close>

fun scan_string :: "str \<Rightarrow> (str \<times> str) option" where
  "scan_string [] = None"
| "scan_string (c # cs) =
    (if c = 0x22 then Some ([], cs)
     else if c < 0x20 then None
     else if c \<noteq> 0x5C then cons_string c (scan_string cs)
     else (case cs of
        [] \<Rightarrow> None
      | e # es \<Rightarrow>
          if e = 0x75 then
            (case parse_hex4 es of
               None \<Rightarrow> None
             | Some u \<Rightarrow>
                 if 0xD800 \<le> u \<and> u \<le> 0xDBFF \<and> take 2 (drop 4 es) = [0x5C, 0x75] then
                   (case parse_hex4 (drop 6 es) of
                      None \<Rightarrow> None
                    | Some u2 \<Rightarrow>
                        if 0xDC00 \<le> u2 \<and> u2 \<le> 0xDFFF
                        then cons_string (0x10000 + ((u - 0xD800) * 1024 + (u2 - 0xDC00)))
                               (scan_string (drop 10 es))
                        else cons_string u (scan_string (drop 4 es)))
                 else cons_string u (scan_string (drop 4 es)))
          else (case unescape e of
             None \<Rightarrow> None
           | Some ch \<Rightarrow> cons_string ch (scan_string es))))"

definition read_nat :: "str \<Rightarrow> nat" where
  "read_nat ds = foldl (\<lambda>n d. n * 10 + (d - 48)) 0 ds"

text \<open>
  The number token at the front of the text, as the scanner matches it:
  \<open>-?(0|[1-9][0-9]*)(\.[0-9]+)?([eE][-+]?[0-9]+)?\<close>.  The results are the sign, the
  integer part, the fraction, the exponent and the text behind the token.
\<close>

definition scan_frac :: "str \<Rightarrow> str \<times> str" where
  "scan_frac s =
    (case s of
       p # q # r \<Rightarrow>
         if p = 0x2E \<and> is_digit q then (p # q # takeWhile is_digit r, dropWhile is_digit r)
         else ([], s)
     | _ \<Rightarrow> ([], s))"

definition scan_exp :: "str \<Rightarrow> str \<times> str" where
  "scan_exp s =
    (case s of
       e # r \<Rightarrow>
         if e = 0x65 \<or> e = 0x45 then
           (case r of
              x # r' \<Rightarrow>
                if (x = 0x2B \<or> x = 0x2D) \<and> r' \<noteq> [] \<and> is_digit (hd r')
                then (e # x # takeWhile is_digit r', dropWhile is_digit r')
                else if is_digit x then (e # takeWhile is_digit r, dropWhile is_digit r)
                else ([], s)
            | [] \<Rightarrow> ([], s))
         else ([], s)
     | [] \<Rightarrow> ([], s))"

definition scan_number :: "str \<Rightarrow> (json \<times> str) option" where
  "scan_number s =
    (let neg = (s \<noteq> [] \<and> hd s = 0x2D);
         s1 = (if neg then tl s else s)
     in case s1 of
          [] \<Rightarrow> None
        | d # ds \<Rightarrow>
            if \<not> is_digit d then None
            else
              (let ip = (if d = 48 then [d] else d # takeWhile is_digit ds);
                   (frac, s3) = scan_frac (drop (length ip) s1);
                   (ex, s4) = scan_exp s3
               in if frac = [] \<and> ex = []
                  then Some (JInt (if neg then - int (read_nat ip) else int (read_nat ip)), s4)
                  else Some (JFloat ((if neg then [0x2D] else []) @ ip @ frac @ ex), s4)))"

text \<open>
  \<open>scan_once\<close> with the object and array readers.  The first argument bounds the
  number of calls still allowed; \<open>json_loads\<close> starts with a bound that is never
  reached (twice the length of the text, plus one).
\<close>

fun parse_value :: "nat \<Rightarrow> str \<Rightarrow> (json \<times> str) option"
  and parse_elements :: "nat \<Rightarrow> str \<Rightarrow> (json list \<times> str) option"
  and parse_members :: "nat \<Rightarrow> str \<Rightarrow> ((str \<times> json) list \<times> str) option"
where
  "parse_value 0 s = None"
| "parse_value (Suc f) s =
    (case s of
       [] \<Rightarrow> None
     | c # cs \<Rightarrow>
         if c = 0x22 then
           (case scan_string cs of None \<Rightarrow> None | Some (t, r) \<Rightarrow> Some (JStr t, r))
         else if c = 0x7B then
           (case skip_ws cs of
              [] \<Rightarrow> None
            | d # ds \<Rightarrow>
                if d = 0x7D then Some (JDict [], ds)
                else (case parse_members f (d # ds) of
                   None \<Rightarrow> None
                 | Some (kvs, r) \<Rightarrow> Some (JDict (dict_update [] kvs), r)))
         else if c = 0x5B then
           (case skip_ws cs of
              [] \<Rightarrow> None
            | d # ds \<Rightarrow>
                if d = 0x5D then Some (JList [], ds)
                else (case parse_elements f (d # ds) of
                   None \<Rightarrow> None
                 | Some (vs, r) \<Rightarrow> Some (JList vs, r)))
         else if take 4 s = ustr ''null'' then Some (JNull, drop 4 s)
         else if take 4 s = ustr ''true'' then Some (JBool True, drop 4 s)
         else if take 5 s = ustr ''false'' then Some (JBool False, drop 5 s)
         else if take 3 s = ustr ''NaN'' then Some (JFloat (ustr ''NaN''), drop 3 s)
         else if take 8 s = ustr ''Infinity'' then Some (JFloat (ustr ''Infinity''), drop 8 s)
         else if take 9 s = ustr ''-Infinity'' then Some (JFloat (ustr ''-Infinity''), drop 9 s)
         else scan_number s)"
| "parse_elements 0 s = None"
| "parse_elements (Suc f) s =
    (case parse_value f s of
       None \<Rightarrow> None
     | Some (v, r) \<Rightarrow>
         (case skip_ws r of
            [] \<Rightarrow> None
          | d # ds \<Rightarrow>
              if d = 0x5D then Some ([v], ds)
              else if d = 0x2C then
                (case parse_elements f (skip_ws ds) of
                   None \<Rightarrow> None
                 | Some (vs, r') \<Rightarrow> Some (v # vs, r'))
              else None))"
| "parse_members 0 s = None"
| "parse_members (Suc f) s =
    (case s of
       [] \<Rightarrow> None
     | q # cs \<Rightarrow>
         if q \<noteq> 0x22 then None
         else (case scan_string cs of
            None \<Rightarrow> None
          | Some (k, r) \<Rightarrow>
              (case skip_ws r of
                 [] \<Rightarrow> None
               | c # r1 \<Rightarrow>
                   if c \<noteq> 0x3A then None
                   else (case parse_value f (skip_ws r1) of
                      None \<Rightarrow> None
                    | Some (v, r2) \<Rightarrow>
                        (case skip_ws r2 of
                           [] \<Rightarrow> None
                         | d # ds \<Rightarrow>
                             if d = 0x7D then Some ([(k, v)], ds)
                             else if d = 0x2C then
                               (case parse_members f (skip_ws ds) of
                                  None \<Rightarrow> None
                                | Some (kvs, r') \<Rightarrow> Some ((k, v) # kvs, r'))
                             else None)))))"

text \<open>
  \<open>float(text)\<close> is not computed here: \<open>float_text\<close> stands for the function that
  maps a number token to the text \<open>json.dumps\<close> prints for the float it denotes.
\<close>

fun norm_floats :: "(str \<Rightarrow> str) \<Rightarrow> json \<Rightarrow> json" where
  "norm_floats float_text (JFloat r) = JFloat (float_text r)"
| "norm_floats float_text (JList xs) = JList (map (norm_floats float_text) xs)"
| "norm_floats float_text (JDict kvs) =
     JDict (map (\<lambda>(k, v). (k, norm_floats float_text v)) kvs)"
| "norm_floats float_text v = v"

definition json_loads :: "(str \<Rightarrow> str) \<Rightarrow> str \<Rightarrow> error + json" where
  "json_loads float_text s =
    (let s0 = skip_ws s in
     case parse_value (2 * length s0 + 1) s0 of
       None \<Rightarrow> Inl JSONDecodeError
     | Some (v, r) \<Rightarrow>
         if skip_ws r = [] then Inr (norm_floats float_text v) else Inl JSONDecodeError)"

section \<open>The world outside the program\<close>

text \<open>
  What the client reads from and writes to its surroundings is explicit state: the
  credential file \<open>~/.xbloom_auth\<close>, the padding the cryptography library draws, the
  clock, and the server.  Three conversions of the Python runtime that need
  floating-point or the Unicode database are functions of the world as well.

  The server's side of the exchange that a request starts is a sequence of steps: step
  \<open>k\<close> tells how many seconds pass on the socket before something arrives, and what
  arrives: more data, the end of the response, or a failure (a refused or broken
  connection, an HTTP error status) that \<open>urlopen\<close> or \<open>read\<close> raises.
\<close>

datatype file_node =
    Missing
  | Unreadable
  | File (file_bytes: "byte list") (file_mode: nat)

datatype request_data = DataBytes "byte list" | DataObject json

record request =
  url :: str
  body_data :: request_data
  http_method :: str
  headers :: "(str \<times> str) list"

datatype reply = Chunk "byte list" | Finished | Broken error

record world =
  auth_file :: file_node
  padding :: entropy
  clock_ms :: int
  server :: "request \<Rightarrow> nat \<Rightarrow> nat \<times> reply"
  float_text :: "str \<Rightarrow> str"
  int_of_str :: "str \<Rightarrow> error + int"
  int_of_float :: "str \<Rightarrow> error + int"

section \<open>Operations on Python values\<close>

definition truthy :: "json \<Rightarrow> bool" where
  \<comment> \<open>\<open>bool(v)\<close>\<close>
  "truthy v =
    (case v of
       JNull \<Rightarrow> False
     | JBool b \<Rightarrow> b
     | JInt i \<Rightarrow> i \<noteq> 0
     | JFloat r \<Rightarrow> r \<noteq> ustr ''0.0'' \<and> r \<noteq> ustr ''-0.0''
     | JStr s \<Rightarrow> s \<noteq> []
     | JList xs \<Rightarrow> xs \<noteq> []
     | JTuple xs \<Rightarrow> xs \<noteq> []
     | JDict kvs \<Rightarrow> kvs \<noteq> [])"

definition py_get :: "json \<Rightarrow> str \<Rightarrow> json \<Rightarrow> error + json" where
  \<comment> \<open>\<open>obj.get(key, default)\<close>: only a \<open>dict\<close> has the method\<close>
  "py_get obj key dflt =
    (case obj of
       JDict kvs \<Rightarrow> (case dict_get kvs key of None \<Rightarrow> Inr dflt | Some v \<Rightarrow> Inr v)
     | _ \<Rightarrow> Inl AttributeError)"

definition py_int :: "world \<Rightarrow> json \<Rightarrow> error + int" where
  \<comment> \<open>\<open>int(v)\<close>\<close>
  "py_int w v =
    (case v of
       JInt i \<Rightarrow> Inr i
     | JBool b \<Rightarrow> Inr (if b then 1 else 0)
     | JStr s \<Rightarrow> int_of_str w s
     | JFloat r \<Rightarrow> int_of_float w r
     | _ \<Rightarrow> Inl TypeError)"

section \<open>The client\<close>

definition BASE_URL :: str where
  "BASE_URL = ustr ''https://client-api.xbloom.com/''"

definition SKEY :: str where
  "SKEY = ustr ''testskey''"

definition encrypt_form :: "entropy \<Rightarrow> json \<Rightarrow> error + str" where
  "encrypt_form rnd form =
    (case utf8_encode (dumps_compact form) of
       Inl e \<Rightarrow> Inl e
     | Inr json_bytes \<Rightarrow>
         (case rsa_encrypt rnd json_bytes of
            Inl e \<Rightarrow> Inl e
          | Inr encrypted \<Rightarrow> Inr (map unat (b64encode encrypted))))"

definition MODE_0600 :: nat where
  \<comment> \<open>\<open>0o600\<close>: read and write for the owner only\<close>
  "MODE_0600 = 6 * 64"

definition load_auth :: "world \<Rightarrow> error + json" where
  \<comment> \<open>\<open>None\<close> is \<open>JNull\<close>\<close>
  "load_auth w =
    (case auth_file w of
       Missing \<Rightarrow> Inr JNull
     | Unreadable \<Rightarrow> Inr JNull
     | File bs m \<Rightarrow>
         (case utf8_decode bs of
            Inl e \<Rightarrow> Inl e
          | Inr text \<Rightarrow>
              (case json_loads (float_text w) text of
                 Inl e \<Rightarrow> Inr JNull
               | Inr v \<Rightarrow> Inr v)))"

definition save_auth :: "world \<Rightarrow> int \<Rightarrow> json \<Rightarrow> json \<Rightarrow> error + world" where
  "save_auth w member_id token email =
    (let data_obj = JDict [(ustr ''member_id'', JInt member_id), (ustr ''token'', token),
                           (ustr ''email'', email)]
     in case utf8_encode (dumps_default True data_obj) of
          Inl e \<Rightarrow> Inl e
        | Inr bs \<Rightarrow>
            (case auth_file w of
               Unreadable \<Rightarrow> Inl OSError
             | _ \<Rightarrow> Inr (w\<lparr>auth_file := File bs MODE_0600\<rparr>)))"

definition make_base_form :: "world \<Rightarrow> int \<Rightarrow> str \<Rightarrow> error + pydict" where
  "make_base_form w member_id token =
    (case (if token = [] then load_auth w else Inr JNull) of
       Inl e \<Rightarrow> Inl e
     | Inr auth \<Rightarrow>
         (case (if token \<noteq> [] then Inr (JStr token)
                else if truthy auth then py_get auth (ustr ''token'') (JStr [])
                else Inr (JStr [])) of
            Inl e \<Rightarrow> Inl e
          | Inr tok \<Rightarrow>
              Inr [(ustr ''interfaceVersion'', JInt 20240918),
                   (ustr ''skey'', JStr SKEY),
                   (ustr ''phoneType'', JStr (ustr ''Android'')),
                   (ustr ''memberId'', JInt member_id),
                   (ustr ''clientType'', JInt 2),
                   (ustr ''languageType'', JInt 1),
                   (ustr ''token'', tok)]))"

datatype post_body = BodyStr str | BodyDict json

definition add_header :: "request \<Rightarrow> str \<Rightarrow> str \<Rightarrow> request" where
  "add_header req key val = req\<lparr>headers := dict_set (headers req) key val\<rparr>"

text \<open>
  Receiving with the socket timeout \<open>t\<close>: every wait for the server is cut off after
  \<open>t\<close> seconds with a timeout error; data that arrives in time is collected until the
  response ends.  Nothing bounds the number of steps, so the value is optional: \<open>None\<close>
  means that the call does not return.
\<close>

partial_function (option) receive ::
  "(nat \<Rightarrow> nat \<times> reply) \<Rightarrow> nat \<Rightarrow> nat \<Rightarrow> byte list \<Rightarrow> (error + byte list) option" where
  "receive steps t k acc =
    (if t < fst (steps k) then Some (Inl TimeoutError)
     else (case snd (steps k) of
        Chunk bs \<Rightarrow> receive steps t (Suc k) (acc @ bs)
      | Finished \<Rightarrow> Some (Inr acc)
      | Broken e \<Rightarrow> Some (Inl e)))"

definition urlopen :: "world \<Rightarrow> request \<Rightarrow> nat \<Rightarrow> (error + byte list) option" where
  \<comment> \<open>\<open>urlopen(req, timeout=t)\<close> followed by \<open>resp.read()\<close>\<close>
  "urlopen w req t = receive (server w req) t 0 []"

text \<open>
  \<open>_post\<close> in two steps: the request it builds (the body, then the headers), and the
  call of \<open>urlopen\<close> with the reading of the response.
\<close>

definition post_request :: "str \<Rightarrow> post_body \<Rightarrow> bool \<Rightarrow> error + request" where
  "post_request endpoint body is_encrypted =
    (let target = BASE_URL @ endpoint in
     case (if is_encrypted then
             (case body of
                BodyStr s \<Rightarrow>
                  (case utf8_encode s of Inl e \<Rightarrow> Inl e | Inr bs \<Rightarrow> Inr (DataBytes bs))
              | BodyDict d \<Rightarrow> Inr (DataObject d))
           else
             (case utf8_encode
                     (dumps_default False (case body of BodyStr s \<Rightarrow> JStr s | BodyDict d \<Rightarrow> d)) of
                Inl e \<Rightarrow> Inl e
              | Inr bs \<Rightarrow> Inr (DataBytes bs))) of
       Inl e \<Rightarrow> Inl e
     | Inr payload \<Rightarrow>
         (let req0 = \<lparr> url = target, body_data = payload, http_method = ustr ''POST'',
                         headers = [] \<rparr>;
              req1 = add_header req0 (ustr ''Content-Type'')
                       (ustr ''application/json; charset=utf-8'');
              req2 = add_header req1 (ustr ''Accept'') (ustr ''application/json, text/plain, */*'');
              req3 = (if \<not> is_encrypted
                      then add_header req2 (ustr ''Referer'') (ustr ''https://share-h5.xbloom.com/'')
                      else req2)
          in Inr req3))"

definition read_response :: "world \<Rightarrow> byte list \<Rightarrow> error + json" where
  \<comment> \<open>\<open>json.loads(raw.decode("utf-8"))\<close>\<close>
  "read_response w raw =
    (case utf8_decode raw of
       Inl e \<Rightarrow> Inl e
     | Inr text \<Rightarrow> json_loads (float_text w) text)"

definition post :: "world \<Rightarrow> str \<Rightarrow> post_body \<Rightarrow> bool \<Rightarrow> (error + json) option" where
  "post w endpoint body is_encrypted =
    (case post_request endpoint body is_encrypted of
       Inl e \<Rightarrow> Some (Inl e)
     | Inr req \<Rightarrow>
         (case urlopen w req 15 of
            None \<Rightarrow> None
          | Some (Inl e) \<Rightarrow> Some (Inl e)
          | Some (Inr raw) \<Rightarrow> Some (read_response w raw)))"

subsection \<open>The public recipe\<close>

definition is_space :: "nat \<Rightarrow> bool" where
  \<comment> \<open>\<open>str.isspace\<close> of one character\<close>
  "is_space c =
    ((0x09 \<le> c \<and> c \<le> 0x0D) \<or> (0x1C \<le> c \<and> c \<le> 0x20) \<or> c = 0x85 \<or> c = 0xA0
     \<or> c = 0x1680 \<or> (0x2000 \<le> c \<and> c \<le> 0x200A) \<or> c = 0x2028 \<or> c = 0x2029
     \<or> c = 0x202F \<or> c = 0x205F \<or> c = 0x3000)"

definition strip :: "str \<Rightarrow> str" where
  \<comment> \<open>\<open>s.strip()\<close>\<close>
  "strip s = rev (dropWhile is_space (rev (dropWhile is_space s)))"

fun contains :: "'a list \<Rightarrow> 'a list \<Rightarrow> bool" where
  \<comment> \<open>\<open>sub in s\<close>\<close>
  "contains sub [] = (sub = [])"
| "contains sub (c # cs) = (take (length sub) (c # cs) = sub \<or> contains sub cs)"

text \<open>
  \<open>s.split(sep)\<close> for a non-empty separator: the text is read from the left, \<open>cur\<close>
  holds the piece being read in reverse.
\<close>

function split_from :: "'a list \<Rightarrow> 'a list \<Rightarrow> 'a list \<Rightarrow> 'a list list" where
  "split_from sep cur [] = [rev cur]"
| "split_from sep cur (c # cs) =
    (if sep \<noteq> [] \<and> take (length sep) (c # cs) = sep
     then rev cur # split_from sep [] (drop (length sep) (c # cs))
     else split_from sep (c # cur) cs)"
  by pat_completeness auto
termination
  by (relation "measure (\<lambda>(sep, cur, s). length s)") auto

definition split :: "'a list \<Rightarrow> 'a list \<Rightarrow> 'a list list" where
  "split s sep = split_from sep [] s"

definition is_hex :: "nat \<Rightarrow> bool" where
  "is_hex c = (hex_value c \<noteq> None)"

text \<open>
  \<open>unquote_to_bytes\<close> on ASCII text: \<open>%\<close> followed by two hexadecimal digits is the
  octet they denote; every other character, a \<open>%\<close> without two digits included, stands
  for itself.
\<close>

fun unquote_to_bytes :: "str \<Rightarrow> byte list" where
  "unquote_to_bytes [] = []"
| "unquote_to_bytes (c # cs) =
    (if c = 0x25 \<and> 2 \<le> length cs \<and> is_hex (cs ! 0) \<and> is_hex (cs ! 1)
     then of_nat (the (hex_value (cs ! 0)) * 16 + the (hex_value (cs ! 1)))
          # unquote_to_bytes (drop 2 cs)
     else of_nat c # unquote_to_bytes cs)"

definition is_ascii :: "nat \<Rightarrow> bool" where
  "is_ascii c = (c < 0x80)"

text \<open>
  \<open>urllib.parse.unquote(s)\<close> with its defaults (UTF-8, \<open>errors='replace'\<close>): text
  without \<open>%\<close> is returned as it is; otherwise every maximal run of ASCII characters is
  unquoted to octets and decoded, and the characters between the runs are kept.
\<close>

function unquote_runs :: "str \<Rightarrow> str" where
  "unquote_runs s =
    (if s = [] then []
     else if is_ascii (hd s)
     then utf8_decode_replace (unquote_to_bytes (takeWhile is_ascii s))
          @ unquote_runs (dropWhile is_ascii s)
     else takeWhile (\<lambda>c. \<not> is_ascii c) s @ unquote_runs (dropWhile (\<lambda>c. \<not> is_ascii c) s))"
  by pat_completeness auto
termination
proof (relation "measure length")
  show "wf (measure length)" by simp
next
  fix s :: str
  assume "s \<noteq> []" and "is_ascii (hd s)"
  then have "length (dropWhile is_ascii s) < length s"
    by (cases s) (auto simp: le_imp_less_Suc length_dropWhile_le)
  then show "(dropWhile is_ascii s, s) \<in> measure length" by simp
next
  fix s :: str
  assume "s \<noteq> []" and "\<not> is_ascii (hd s)"
  then have "length (dropWhile (\<lambda>c. \<not> is_ascii c) s) < length s"
    by (cases s) (auto simp: le_imp_less_Suc length_dropWhile_le)
  then show "(dropWhile (\<lambda>c. \<not> is_ascii c) s, s) \<in> measure length" by simp
qed

declare unquote_runs.simps [simp del]

definition unquote :: "str \<Rightarrow> str" where
  "unquote s = (if 0x25 \<notin> set s then s else unquote_runs s)"

definition parse_share_id :: "str \<Rightarrow> str" where
  "parse_share_id share_url_or_id =
    (let s = strip share_url_or_id;
         s' = (if contains (ustr ''id='') s
               then hd (split (last (split s (ustr ''id=''))) (ustr ''&''))
               else s)
     in unquote s')"

definition fetch_recipe :: "world \<Rightarrow> str \<Rightarrow> (error + json) option" where
  "fetch_recipe w share_url_or_id =
    (let table_id = parse_share_id share_url_or_id;
         body = JDict [(ustr ''tableIdOfRSA'', JStr table_id),
                       (ustr ''interfaceVersion'', JInt 19700101),
                       (ustr ''skey'', JStr SKEY)]
     in post w (ustr ''RecipeDetail.html'') (BodyDict body) False)"

subsection \<open>Login\<close>

definition login_form :: "str \<Rightarrow> str \<Rightarrow> pydict" where
  "login_form email password =
    [(ustr ''interfaceVersion'', JInt 20240918),
     (ustr ''skey'', JStr SKEY),
     (ustr ''phoneType'', JStr (ustr ''Android'')),
     (ustr ''clientType'', JInt 2),
     (ustr ''languageType'', JInt 1),
     (ustr ''email'', JStr email),
     (ustr ''password'', JStr password),
     (ustr ''jpushId'', JStr [])]"

text \<open>
  What \<open>login\<close> does with the response: on \<open>result == "success"\<close> the credential
  record is saved; the response is returned with the world as it is then.
\<close>

definition login_store :: "world \<Rightarrow> str \<Rightarrow> json \<Rightarrow> error + json \<times> world" where
  "login_store w email resp =
    (case py_get resp (ustr ''result'') JNull of
       Inl e \<Rightarrow> Inl e
     | Inr res \<Rightarrow>
         if res = JStr (ustr ''success'') then
           (case py_get resp (ustr ''member'') (JDict []) of
              Inl e \<Rightarrow> Inl e
            | Inr member \<Rightarrow>
                (case py_get member (ustr ''tableId'') (JInt 0) of
                   Inl e \<Rightarrow> Inl e
                 | Inr table_id \<Rightarrow>
                     (case py_int w table_id of
                        Inl e \<Rightarrow> Inl e
                      | Inr member_id \<Rightarrow>
                          (case py_get resp (ustr ''token'') (JStr []) of
                             Inl e \<Rightarrow> Inl e
                           | Inr token \<Rightarrow>
                               (case py_get member (ustr ''email'') (JStr email) of
                                  Inl e \<Rightarrow> Inl e
                                | Inr email' \<Rightarrow>
                                    (case save_auth w member_id token email' of
                                       Inl e \<Rightarrow> Inl e
                                     | Inr w' \<Rightarrow> Inr (resp, w')))))))
         else Inr (resp, w))"

definition login :: "world \<Rightarrow> str \<Rightarrow> str \<Rightarrow> (error + json \<times> world) option" where
  "login w email password =
    (case encrypt_form (padding w) (JDict (login_form email password)) of
       Inl e \<Rightarrow> Some (Inl e)
     | Inr encrypted_body \<Rightarrow>
         (case post w (ustr ''tMemberLogin.thtml'') (BodyStr encrypted_body) True of
            None \<Rightarrow> None
          | Some (Inl e) \<Rightarrow> Some (Inl e)
          | Some (Inr resp) \<Rightarrow> Some (login_store w email resp)))"

subsection \<open>Authenticated calls\<close>

record recipe_args =
  name :: str
  dose :: str
  grand_water :: str
  grinder_size :: str
  rpm :: int
  cup_type :: int
  adapted_model :: int
  is_enable_bypass_water :: int
  is_set_grinder_size :: int
  the_color :: str
  the_subset_id :: int
  bypass_temp :: str
  bypass_volume :: str
  pour_list :: "json list option"


definition default_pour_list :: "json list" where
  "default_pour_list =
    [JDict [(ustr ''theName'', JStr (ustr ''Pour'')),
            (ustr ''volume'', JFloat (ustr ''225.0'')),
            (ustr ''temperature'', JFloat (ustr ''93.0'')),
            (ustr ''flowRate'', JFloat (ustr ''3.5'')),
            (ustr ''pattern'', JInt 1),
            (ustr ''pausing'', JInt 0),
            (ustr ''isEnableVibrationBefore'', JInt 2),
            (ustr ''isEnableVibrationAfter'', JInt 2)]]"

text \<open>The envelope \<open>create_recipe\<close> builds before it encrypts and posts it.\<close>

definition create_recipe_form :: "world \<Rightarrow> int \<Rightarrow> recipe_args \<Rightarrow> error + pydict" where
  "create_recipe_form w member_id a =
    (let pours = (case pour_list a of None \<Rightarrow> default_pour_list | Some xs \<Rightarrow> xs) in
     case make_base_form w member_id [] of
       Inl e \<Rightarrow> Inl e
     | Inr form \<Rightarrow>
         Inr (dict_update form
           [(ustr ''theName'', JStr (name a)),
            (ustr ''dose'', JFloat (dose a)),
            (ustr ''grandWater'', JFloat (grand_water a)),
            (ustr ''grinderSize'', JFloat (grinder_size a)),
            (ustr ''rpm'', JInt (rpm a)),
            (ustr ''cupType'', JInt (cup_type a)),
            (ustr ''adaptedModel'', JInt (adapted_model a)),
            (ustr ''isEnableBypassWater'', JInt (is_enable_bypass_water a)),
            (ustr ''isSetGrinderSize'', JInt (is_set_grinder_size a)),
            (ustr ''theColor'', JStr (the_color a)),
            (ustr ''theSubsetId'', JInt (the_subset_id a)),
            (ustr ''bypassTemp'', JFloat (bypass_temp a)),
            (ustr ''bypassVolume'', JFloat (bypass_volume a)),
            (ustr ''subSetType'', JInt 2),
            (ustr ''appPlace'', JList [JInt 4]),
            (ustr ''createTimeStamp'', JInt (clock_ms w)),
            (ustr ''isShortcuts'', JInt 2),
            (ustr ''pourDataJSONStr'', JStr (dumps_compact (JList pours)))]))"

definition create_recipe :: "world \<Rightarrow> int \<Rightarrow> recipe_args \<Rightarrow> (error + json) option" where
  "create_recipe w member_id a =
    (case create_recipe_form w member_id a of
       Inl e \<Rightarrow> Some (Inl e)
     | Inr form \<Rightarrow>
         (case encrypt_form (padding w) (JDict form) of
            Inl e \<Rightarrow> Some (Inl e)
          | Inr encrypted_body \<Rightarrow>
              post w (ustr ''tuRecipeAdd.tuhtml'') (BodyStr encrypted_body) True))"

text \<open>The envelope \<open>list_my_recipes\<close> builds; \<open>model_filter\<close> is its parameter
  \<open>adapted_model\<close>.\<close>

definition list_my_recipes_form :: "world \<Rightarrow> int \<Rightarrow> int \<Rightarrow> error + pydict" where
  "list_my_recipes_form w member_id model_filter =
    (case make_base_form w member_id [] of
       Inl e \<Rightarrow> Inl e
     | Inr form0 \<Rightarrow>
         (let form1 = dict_set form0 (ustr ''pageNumber'') (JInt 1);
              form2 = dict_set form1 (ustr ''countPerPage'') (JInt 100);
              form3 = (if model_filter \<noteq> 0
                       then dict_set form2 (ustr ''adaptedModel'') (JInt model_filter)
                       else form2)
          in Inr form3))"

definition list_my_recipes :: "world \<Rightarrow> int \<Rightarrow> int \<Rightarrow> (error + json) option" where
  "list_my_recipes w member_id model_filter =
    (case list_my_recipes_form w member_id model_filter of
       Inl e \<Rightarrow> Some (Inl e)
     | Inr form \<Rightarrow>
         (case encrypt_form (padding w) (JDict form) of
            Inl e \<Rightarrow> Some (Inl e)
          | Inr encrypted_body \<Rightarrow>
              post w (ustr ''tuMyTeaRecipeCreated.tuhtml'') (BodyStr encrypted_body) True))"

subsection \<open>The command line's member id\<close>



section \<open>Auxiliary definitions of the verification\<close>

text \<open>The \<open>dict\<close> literal of \<open>_make_base_form\<close>, for a given value of its last field.\<close>

definition base_fields :: "int \<Rightarrow> json \<Rightarrow> pydict" where
  "base_fields member_id tok =
      [(ustr ''interfaceVersion'', JInt 20240918), (ustr ''skey'', JStr SKEY),
       (ustr ''phoneType'', JStr (ustr ''Android'')), (ustr ''memberId'', JInt member_id),
       (ustr ''clientType'', JInt 2), (ustr ''languageType'', JInt 1), (ustr ''token'', tok)]"

text \<open>
  Two worlds for the examples: one without a credential file and with a server that cannot
  be reached, and the same world after the record of member 7 has been stored.
\<close>

definition quiet_world :: world where
  "quiet_world = \<lparr> auth_file = Missing, padding = (\<lambda>i j. 1), clock_ms = 1700000000000,
     server = (\<lambda>req k. (0, Broken URLError)), float_text = (\<lambda>r. r),
     int_of_str = (\<lambda>s. Inl ValueError), int_of_float = (\<lambda>r. Inl ValueError) \<rparr>"

definition stored_world :: world where
  "stored_world = quiet_world\<lparr>auth_file :=
      File (map of_nat ([0x7B, 0x22] @ ustr ''member_id'' @ [0x22] @ ustr '': 7, '' @ [0x22]
         @ ustr ''token'' @ [0x22] @ ustr '': '' @ [0x22] @ ustr ''abc'' @ [0x22] @ ustr '', ''
         @ [0x22] @ ustr ''email'' @ [0x22] @ ustr '': '' @ [0x22] @ ustr ''a@b.c''
         @ [0x22, 0x7D])) MODE_0600\<rparr>"



text \<open>
  The whitespace a value brings into its compact JSON text by itself: the spaces inside
  its strings and keys (tabs and line ends are escaped) and whatever a float's text holds.
\<close>

definition raw_spaces :: "str \<Rightarrow> nat" where
  "raw_spaces s = length (filter (\<lambda>c. c = 0x20) s)"

fun spaces_in :: "json \<Rightarrow> nat" where
  "spaces_in (JStr s) = raw_spaces s"
| "spaces_in (JFloat r) = length (filter is_ws r)"
| "spaces_in (JList xs) = sum_list (map spaces_in xs)"
| "spaces_in (JTuple xs) = sum_list (map spaces_in xs)"
| "spaces_in (JDict kvs) = sum_list (map (\<lambda>(k, v). raw_spaces k + spaces_in v) kvs)"
| "spaces_in v = 0"

section \<open>Verification: chunked encryption\<close>

lemma load_rsa_public_key_eq:
  "load_rsa_public_key = Inr \<lparr> modulus = 129330898196524035537976942324074970833416744288030356569035620369000727856373472301717790583499447899781748023780674448973423414267743454985934371485412284452034369712392281716614261827955533793764788338518857650554157741130391666823649057760177259084437609842182030447909957380007514927906169303961664507641,
      public_exponent = 65537, key_bytes = 128 \<rparr>"
  by (simp add: load_rsa_public_key_def RSA_PUBLIC_KEY_B64_def ustr_def load_der_public_key_def
      spki_rsa1024_prefix_def os2ip_def)

lemma load_rsa_public_key_props:
  "\<exists>pub_key. load_rsa_public_key = Inr pub_key \<and> key_bytes pub_key = 128
     \<and> 0 < modulus pub_key \<and> modulus pub_key < 256 ^ 128"
proof -
  have "(256::nat) ^ 128 = 2 ^ 1024"
    by (simp flip: power_mult add: power_mult[of 2 8 128, simplified])
  then show ?thesis
    unfolding load_rsa_public_key_eq by simp
qed

lemma num_blocks_eq:
  "nat \<lceil>real L / real RSA_MAX_PLAIN_BLOCK\<rceil> = (L + 116) div 117"
  unfolding RSA_MAX_PLAIN_BLOCK_def by linarith

lemma blocks_cover: "(L::nat) \<le> (L + 116) div 117 * 117"
  by linarith

lemma block_start: "i < (L + 116) div 117 \<Longrightarrow> i * 117 < (L::nat)"
  by linarith

lemma block_full: "Suc i < (L + 116) div 117 \<Longrightarrow> i * 117 + 117 \<le> (L::nat)"
  by linarith

lemma concat_chunks:
  "concat (map (\<lambda>i. take n (drop (i * n) xs)) [0..<k]) = take (k * n) xs"
proof (induction k)
  case 0
  show ?case by simp
next
  case (Suc k)
  have "take (Suc k * n) xs = take (k * n) xs @ take n (drop (k * n) xs)"
    using take_add[of "k * n" n xs] by (simp add: add.commute)
  with Suc show ?case by simp
qed

lemma pkcs1v15_encrypt_length:
  assumes "key_bytes pk = 128" and "0 < modulus pk" and "modulus pk < 256 ^ 128"
    and "length m \<le> 117"
  shows "\<exists>c. pkcs1v15_encrypt pk pad m = Inr c \<and> length c = 128"
proof -
  have "rsaep pk (os2ip (eme_pkcs1_v15 128 pad m)) < modulus pk"
    using assms(2) by (simp add: rsaep_def)
  with assms(3) have "\<not> 256 ^ 128 \<le> rsaep pk (os2ip (eme_pkcs1_v15 128 pad m))"
    by linarith
  with assms(1,4) show ?thesis
    by (simp add: pkcs1v15_encrypt_def i2osp_def Let_def)
qed

lemma rsa_encrypt_loop_blocks:
  assumes "key_bytes pk = 128" and "0 < modulus pk" and "modulus pk < 256 ^ 128"
  shows "\<exists>cts. length cts = length is
    \<and> (\<forall>j<length is.
         pkcs1v15_encrypt pk (rnd (is ! j)) (take 117 (drop (is ! j * 117) pt)) = Inr (cts ! j)
         \<and> length (cts ! j) = 128)
    \<and> rsa_encrypt_loop pk rnd pt is acc = Inr (acc @ concat cts)"
proof (induction "is" arbitrary: acc)
  case Nil
  show ?case by simp
next
  case (Cons i "is")
  let ?b = "take 117 (drop (i * 117) pt)"
  have blk: "slice pt (i * RSA_MAX_PLAIN_BLOCK)
      (min (i * RSA_MAX_PLAIN_BLOCK + RSA_MAX_PLAIN_BLOCK) (length pt)) = ?b"
    by (simp add: slice_def RSA_MAX_PLAIN_BLOCK_def min_def)
  obtain c where c: "pkcs1v15_encrypt pk (rnd i) ?b = Inr c" "length c = 128"
    using pkcs1v15_encrypt_length[OF assms, of ?b "rnd i"] by auto
  obtain cts where cts: "length cts = length is"
    "\<forall>j<length is.
         pkcs1v15_encrypt pk (rnd (is ! j)) (take 117 (drop (is ! j * 117) pt)) = Inr (cts ! j)
         \<and> length (cts ! j) = 128"
    "rsa_encrypt_loop pk rnd pt is (acc @ c) = Inr ((acc @ c) @ concat cts)"
    using Cons.IH[of "acc @ c"] by blast
  have "rsa_encrypt_loop pk rnd pt (i # is) acc = Inr (acc @ concat (c # cts))"
    using c cts(3) blk by (simp add: Let_def)
  moreover have "\<forall>j<length (i # is).
         pkcs1v15_encrypt pk (rnd ((i # is) ! j)) (take 117 (drop ((i # is) ! j * 117) pt))
           = Inr ((c # cts) ! j) \<and> length ((c # cts) ! j) = 128"
    using c cts(2) by (auto simp: nth_Cons split: nat.splits)
  moreover have "length (c # cts) = length (i # is)"
    using cts(1) by simp
  ultimately show ?case by blast
qed

lemma length_concat_const:
  "(\<forall>j<length xss. length (xss ! j) = c) \<Longrightarrow> length (concat xss) = c * length xss"
proof (induction xss)
  case Nil
  show ?case by simp
next
  case (Cons xs xss)
  from Cons.prems have "length xs = c" by auto
  moreover from Cons.prems have "\<forall>j<length xss. length (xss ! j) = c" by auto
  ultimately show ?case using Cons.IH by simp
qed

text \<open>
  Claim C1.  For every plaintext of length \<open>L\<close> and whatever padding the library
  draws, \<open>rsa_encrypt\<close> succeeds and returns the concatenation, in block order and
  with nothing in between, of the ciphertexts of consecutive plaintext blocks: the blocks
  concatenate to the plaintext, there are \<open>ceil(L / 117)\<close> of them, each is non-empty
  and at most 117 octets long (all but the last exactly 117), block \<open>i\<close> is encrypted
  on its own with the padding of call \<open>i\<close>, every ciphertext block has exactly 128
  octets, the output has \<open>128 * ceil(L / 117)\<close> octets, and the empty plaintext gives
  the empty output.
\<close>

theorem rsa_encrypt_chunking:
  "\<exists>pub_key blocks cts.
      load_rsa_public_key = Inr pub_key \<and>
      concat blocks = plaintext \<and>
      length blocks = nat \<lceil>real (length plaintext) / 117\<rceil> \<and>
      (\<forall>i<length blocks. 0 < length (blocks ! i) \<and> length (blocks ! i) \<le> 117
          \<and> (Suc i < length blocks \<longrightarrow> length (blocks ! i) = 117)) \<and>
      length cts = length blocks \<and>
      (\<forall>i<length blocks. pkcs1v15_encrypt pub_key (rnd i) (blocks ! i) = Inr (cts ! i)
          \<and> length (cts ! i) = RSA_KEY_BYTES) \<and>
      rsa_encrypt rnd plaintext = Inr (concat cts) \<and>
      length (concat cts) = 128 * nat \<lceil>real (length plaintext) / 117\<rceil> \<and>
      (plaintext = [] \<longrightarrow> rsa_encrypt rnd plaintext = Inr [])"
proof -
  define L where "L = length plaintext"
  define n where "n = (L + 116) div 117"
  have n_eq: "nat \<lceil>real (length plaintext) / 117\<rceil> = n"
    using num_blocks_eq[of L] by (simp add: n_def L_def RSA_MAX_PLAIN_BLOCK_def)
  obtain pk where pk: "load_rsa_public_key = Inr pk" "key_bytes pk = 128"
    "0 < modulus pk" "modulus pk < 256 ^ 128"
    using load_rsa_public_key_props by blast
  define blocks where "blocks = map (\<lambda>i. take 117 (drop (i * 117) plaintext)) [0..<n]"
  obtain cts where cts: "length cts = length [0..<n]"
    "\<forall>j<length [0..<n].
         pkcs1v15_encrypt pk (rnd ([0..<n] ! j)) (take 117 (drop ([0..<n] ! j * 117) plaintext))
           = Inr (cts ! j) \<and> length (cts ! j) = 128"
    "rsa_encrypt_loop pk rnd plaintext [0..<n] [] = Inr ([] @ concat cts)"
    using rsa_encrypt_loop_blocks[OF pk(2,3,4), of "[0..<n]" rnd plaintext "[]"] by blast
  have len_blocks: "length blocks = n" by (simp add: blocks_def)
  have "L \<le> n * 117" unfolding n_def by (rule blocks_cover)
  then have cat: "concat blocks = plaintext"
    unfolding blocks_def concat_chunks by (simp add: L_def)
  have blk_len: "0 < length (blocks ! i) \<and> length (blocks ! i) \<le> 117
      \<and> (Suc i < length blocks \<longrightarrow> length (blocks ! i) = 117)" if "i < length blocks" for i
  proof -
    from that have i: "i < n" by (simp add: len_blocks)
    then have "i * 117 < L" unfolding n_def by (rule block_start)
    moreover have "Suc i < n \<Longrightarrow> i * 117 + 117 \<le> L" unfolding n_def by (rule block_full)
    ultimately show ?thesis using i by (auto simp: blocks_def L_def len_blocks)
  qed
  have enc: "pkcs1v15_encrypt pk (rnd i) (blocks ! i) = Inr (cts ! i)
      \<and> length (cts ! i) = RSA_KEY_BYTES" if "i < length blocks" for i
    using cts(2) that by (simp add: blocks_def RSA_KEY_BYTES_def)
  have res: "rsa_encrypt rnd plaintext = Inr (concat cts)"
    unfolding rsa_encrypt_def pk(1) using cts(3) n_eq by (simp add: RSA_MAX_PLAIN_BLOCK_def)
  have "\<forall>j<length cts. length (cts ! j) = 128"
    using cts(1,2) by simp
  then have tot: "length (concat cts) = 128 * n"
    using length_concat_const[of cts 128] cts(1) by simp
  have empty: "plaintext = [] \<longrightarrow> rsa_encrypt rnd plaintext = Inr []"
  proof
    assume "plaintext = []"
    then have "n = 0" by (simp add: n_def L_def)
    with cts(1) have "cts = []" by simp
    with res show "rsa_encrypt rnd plaintext = Inr []" by simp
  qed
  show ?thesis
    unfolding n_eq
    using pk(1) cat len_blocks blk_len cts(1) enc res tot empty
    by (intro exI[of _ pk] exI[of _ blocks] exI[of _ cts]) simp
qed

theorem rsa_encrypt_chunking_witness:
  "\<exists>ct. rsa_encrypt (\<lambda>i j. 1) (replicate 118 0x41) = Inr ct \<and> length ct = 256"
proof -
  have "nat \<lceil>real (length (replicate 118 (0x41::byte))) / 117\<rceil> = 2"
    by simp
  then show ?thesis
    using rsa_encrypt_chunking[of "replicate 118 0x41" "\<lambda>i j. 1"] by auto
qed

section \<open>Verification: dictionaries and the base envelope\<close>

lemma ustr_eq_iff [simp]: "ustr a = ustr b \<longleftrightarrow> a = b"
  unfolding ustr_def by (simp add: inj_map_eq_map inj_on_def)

lemma ustr_Nil [simp]: "ustr [] = []" "ustr a = [] \<longleftrightarrow> a = []" "[] = ustr a \<longleftrightarrow> a = []"
  by (auto simp: ustr_def)

lemma dict_get_Nil [simp]: "dict_get [] k = None"
  by (simp add: dict_get_def)

lemma dict_get_Cons [simp]: "dict_get ((k', v) # d) k = (if k = k' then Some v else dict_get d k)"
  by (simp add: dict_get_def)

lemma dict_get_None_iff: "dict_get d k = None \<longleftrightarrow> k \<notin> fst ` set d"
  by (simp add: dict_get_def map_of_eq_None_iff)

lemma map_of_replace:
  "map_of (map (\<lambda>(k', v'). if k' = k then (k', v) else (k', v')) d) k' =
     (if k' = k then (if k \<in> fst ` set d then Some v else None) else map_of d k')"
  by (induction d) force+

lemma dict_get_set: "dict_get (dict_set d k v) k' = (if k' = k then Some v else dict_get d k')"
proof (cases "k \<in> fst ` set d")
  case True
  then show ?thesis
    by (simp add: dict_set_def dict_get_def map_of_replace)
next
  case False
  then have "map_of d k = None"
    by (simp add: map_of_eq_None_iff)
  then show ?thesis
    using False by (simp add: dict_set_def dict_get_def map_add_def split: option.splits)
qed

lemma keys_dict_set:
  "map fst (dict_set d k v) = (if k \<in> fst ` set d then map fst d else map fst d @ [k])"
  by (auto simp: dict_set_def case_prod_unfold intro!: map_idI)

lemma make_base_form_keys:
  assumes "make_base_form w member_id token = Inr form"
  shows "map fst form = [ustr ''interfaceVersion'', ustr ''skey'', ustr ''phoneType'',
      ustr ''memberId'', ustr ''clientType'', ustr ''languageType'', ustr ''token'']"
  using assms by (auto simp: make_base_form_def split: sum.splits if_splits)

text \<open>
  Claim C8.  Whenever \<open>list_my_recipes\<close> gets as far as its envelope (that is, whenever
  the base envelope can be built), the envelope holds \<open>pageNumber = 1\<close> and
  \<open>countPerPage = 100\<close>; with the filter \<open>0\<close> it has no \<open>adaptedModel\<close> key at all,
  with any other filter value it holds \<open>adaptedModel\<close> with that value; and this envelope
  is what is encrypted and posted.
\<close>

theorem list_my_recipes_envelope:
  "(\<forall>form. list_my_recipes_form w member_id model_filter = Inr form \<longrightarrow>
      dict_get form (ustr ''pageNumber'') = Some (JInt 1)
      \<and> dict_get form (ustr ''countPerPage'') = Some (JInt 100)
      \<and> (model_filter = 0 \<longrightarrow> ustr ''adaptedModel'' \<notin> fst ` set form)
      \<and> (model_filter \<noteq> 0 \<longrightarrow> dict_get form (ustr ''adaptedModel'') = Some (JInt model_filter))
      \<and> list_my_recipes w member_id model_filter =
          (case encrypt_form (padding w) (JDict form) of
             Inl e \<Rightarrow> Some (Inl e)
           | Inr body \<Rightarrow> post w (ustr ''tuMyTeaRecipeCreated.tuhtml'') (BodyStr body) True))
   \<and> ((\<exists>form. list_my_recipes_form w member_id model_filter = Inr form)
        \<longleftrightarrow> (\<exists>base. make_base_form w member_id [] = Inr base))"
proof (intro conjI allI impI)
  fix form
  assume f: "list_my_recipes_form w member_id model_filter = Inr form"
  then obtain base where b: "make_base_form w member_id [] = Inr base"
    by (auto simp: list_my_recipes_form_def split: sum.splits)
  note keys = make_base_form_keys[OF b]
  have form_eq: "form = (if model_filter \<noteq> 0
      then dict_set (dict_set (dict_set base (ustr ''pageNumber'') (JInt 1))
             (ustr ''countPerPage'') (JInt 100)) (ustr ''adaptedModel'') (JInt model_filter)
      else dict_set (dict_set base (ustr ''pageNumber'') (JInt 1))
             (ustr ''countPerPage'') (JInt 100))"
    using f b by (simp add: list_my_recipes_form_def Let_def)
  show "dict_get form (ustr ''pageNumber'') = Some (JInt 1)"
    by (simp add: form_eq dict_get_set)
  show "dict_get form (ustr ''countPerPage'') = Some (JInt 100)"
    by (simp add: form_eq dict_get_set)
  show "ustr ''adaptedModel'' \<notin> fst ` set form" if "model_filter = 0"
  proof -
    have "ustr ''adaptedModel'' \<notin> set (map fst form)"
      using that keys by (simp add: form_eq keys_dict_set)
    then show ?thesis by simp
  qed
  show "dict_get form (ustr ''adaptedModel'') = Some (JInt model_filter)" if "model_filter \<noteq> 0"
    using that by (simp add: form_eq dict_get_set)
  show "list_my_recipes w member_id model_filter =
          (case encrypt_form (padding w) (JDict form) of
             Inl e \<Rightarrow> Some (Inl e)
           | Inr body \<Rightarrow> post w (ustr ''tuMyTeaRecipeCreated.tuhtml'') (BodyStr body) True)"
    using f by (simp add: list_my_recipes_def)
next
  show "(\<exists>form. list_my_recipes_form w member_id model_filter = Inr form)
        \<longleftrightarrow> (\<exists>base. make_base_form w member_id [] = Inr base)"
    by (auto simp: list_my_recipes_form_def Let_def split: sum.splits)
qed


theorem list_my_recipes_envelope_witness:
  "(\<exists>form. list_my_recipes_form quiet_world 7 2 = Inr form
      \<and> dict_get form (ustr ''adaptedModel'') = Some (JInt 2)
      \<and> dict_get form (ustr ''pageNumber'') = Some (JInt 1))
   \<and> (\<exists>form. list_my_recipes_form quiet_world 7 0 = Inr form
      \<and> ustr ''adaptedModel'' \<notin> fst ` set form
      \<and> dict_get form (ustr ''countPerPage'') = Some (JInt 100))"
proof -
  have b: "\<exists>base. make_base_form quiet_world 7 [] = Inr base"
    by (simp add: make_base_form_def load_auth_def quiet_world_def truthy_def)
  from b list_my_recipes_envelope[of quiet_world 7 2] list_my_recipes_envelope[of quiet_world 7 0]
  show ?thesis by (metis zero_neq_numeral)
qed

lemma save_auth_example:
  "save_auth quiet_world 7 (JStr (ustr ''abc'')) (JStr (ustr ''a@b.c'')) = Inr stored_world"
  by (simp add: save_auth_def quiet_world_def stored_world_def dumps_default_def ustr_def
      encode_basestring_def escape_char_def utf8_encode_char_def show_int_def show_nat.simps)





lemma make_base_form_no_token:
  "make_base_form w member_id [] =
    (case load_auth w of
       Inl e \<Rightarrow> Inl e
     | Inr auth \<Rightarrow>
        (case (if truthy auth then py_get auth (ustr ''token'') (JStr []) else Inr (JStr [])) of
           Inl e \<Rightarrow> Inl e
         | Inr tok \<Rightarrow> Inr (base_fields member_id tok)))"
  by (simp add: make_base_form_def base_fields_def split: sum.splits)











section \<open>Verification: the credential file\<close>

lemma load_auth_missing: "auth_file w = Missing \<Longrightarrow> load_auth w = Inr JNull"
  by (simp add: load_auth_def)

lemma load_auth_unreadable: "auth_file w = Unreadable \<Longrightarrow> load_auth w = Inr JNull"
  by (simp add: load_auth_def)

lemma load_auth_bad_json:
  "auth_file w = File bs m \<Longrightarrow> utf8_decode bs = Inr text
    \<Longrightarrow> json_loads (float_text w) text = Inl e \<Longrightarrow> load_auth w = Inr JNull"
  by (simp add: load_auth_def)

lemma load_auth_bad_utf8:
  "auth_file w = File bs m \<Longrightarrow> utf8_decode bs = Inl e \<Longrightarrow> load_auth w = Inl e"
  by (simp add: load_auth_def)

text \<open>
  Claim C10 says that \<open>load_auth\<close> never raises and that the base envelope falls back to
  the empty token for every corrupt credential file.  That holds for a missing file, a
  file that cannot be read and text that is not JSON (\<open>load_auth_missing\<close>,
  \<open>load_auth_unreadable\<close>, \<open>load_auth_bad_json\<close>, \<open>make_base_form_tolerates\<close>), but a
  file whose octets are not UTF-8 makes \<open>read_text\<close> raise \<open>UnicodeDecodeError\<close>, which
  the handler for \<open>JSONDecodeError\<close> and \<open>OSError\<close> does not catch: here for the file
  that consists of the octet \<open>0xFF\<close>.
\<close>

theorem load_auth_raises_on_bad_utf8:
  "utf8_decode [0xFF] = Inl UnicodeDecodeError
   \<and> load_auth (quiet_world\<lparr>auth_file := File [0xFF] MODE_0600\<rparr>) = Inl UnicodeDecodeError
   \<and> make_base_form (quiet_world\<lparr>auth_file := File [0xFF] MODE_0600\<rparr>) 7 []
        = Inl UnicodeDecodeError"
proof -
  have d: "utf8_decode [0xFF] = Inl UnicodeDecodeError"
    by (simp add: utf8_decode_def utf8_decode_list.simps)
  then have l: "load_auth (quiet_world\<lparr>auth_file := File [0xFF] MODE_0600\<rparr>) = Inl UnicodeDecodeError"
    by (simp add: load_auth_def)
  then have "make_base_form (quiet_world\<lparr>auth_file := File [0xFF] MODE_0600\<rparr>) 7 []
        = Inl UnicodeDecodeError"
    by (simp add: make_base_form_no_token)
  with d l show ?thesis by blast
qed

lemma make_base_form_tolerates:
  assumes "auth_file w = Missing \<or> auth_file w = Unreadable
     \<or> (\<exists>bs m text e. auth_file w = File bs m \<and> utf8_decode bs = Inr text
           \<and> json_loads (float_text w) text = Inl e)"
  shows "make_base_form w member_id [] = Inr (base_fields member_id (JStr []))"
proof -
  from assms have "load_auth w = Inr JNull"
    using load_auth_missing load_auth_unreadable load_auth_bad_json by blast
  then show ?thesis
    by (simp add: make_base_form_no_token truthy_def)
qed

section \<open>Verification: base64 and the request body\<close>

lemma utf8_encode_ascii:
  "\<forall>c\<in>set s. c < 0x80 \<Longrightarrow> utf8_encode s = Inr (map of_nat s)"
  by (induction s) (simp_all add: utf8_encode_char_def)

lemma b64_alphabet_ascii: "i < 64 \<Longrightarrow> b64_alphabet ! i < 128"
proof -
  have "\<forall>c\<in>set b64_alphabet. c < 128"
    by (simp add: b64_alphabet_def ustr_def)
  moreover have "length b64_alphabet = 64"
    by (simp add: b64_alphabet_def ustr_def)
  ultimately show "i < 64 \<Longrightarrow> b64_alphabet ! i < 128"
    by (metis nth_mem)
qed

lemma unat_b64_char: "unat (b64_char i) = b64_alphabet ! (i mod 64)"
proof -
  have "b64_alphabet ! (i mod 64) < 128"
    by (rule b64_alphabet_ascii) simp
  then show ?thesis
    by (simp add: b64_char_def unat_of_nat)
qed

lemma b64_char_in_alphabet: "unat (b64_char i) \<in> set b64_alphabet"
proof -
  have "length b64_alphabet = 64"
    by (simp add: b64_alphabet_def ustr_def)
  then show ?thesis
    unfolding unat_b64_char by simp
qed

lemma b64encode_chars:
  "\<forall>b\<in>set (b64encode bs). unat b \<in> set b64_alphabet \<or> unat b = 61"
  by (induction bs rule: b64encode.induct) (simp_all add: Let_def b64_char_in_alphabet)

lemma b64encode_ascii: "\<forall>b\<in>set (b64encode bs). unat b < 0x80"
proof
  fix b assume "b \<in> set (b64encode bs)"
  then have "unat b \<in> set b64_alphabet \<or> unat b = 61"
    using b64encode_chars by blast
  moreover have "\<forall>c\<in>set b64_alphabet. c < 128"
    by (simp add: b64_alphabet_def ustr_def)
  ultimately show "unat b < 0x80" by auto
qed

lemma length_b64encode: "length (b64encode bs) = 4 * ((length bs + 2) div 3)"
proof (induction bs rule: b64encode.induct)
  case (4 a b c rest)
  have "(length (a # b # c # rest) + 2) div 3 = Suc ((length rest + 2) div 3)"
    by simp
  with 4 show ?case by (simp add: Let_def)
qed (simp_all add: Let_def)

lemma utf8_encode_b64: "utf8_encode (map unat (b64encode bs)) = Inr (b64encode bs)"
proof -
  have "\<forall>c\<in>set (map unat (b64encode bs)). c < 0x80"
    using b64encode_ascii by auto
  then have "utf8_encode (map unat (b64encode bs)) = Inr (map of_nat (map unat (b64encode bs)))"
    by (rule utf8_encode_ascii)
  then show ?thesis by (simp add: comp_def)
qed

section \<open>Verification: compact JSON\<close>

lemma ws_count_join:
  "length (filter P (join sep xs)) =
     sum_list (map (\<lambda>x. length (filter P x)) xs) + (length xs - 1) * length (filter P sep)"
  by (induction sep xs rule: join.induct) simp_all

lemma is_ws_hex_digit: "d < 16 \<Longrightarrow> \<not> is_ws (hex_digit d)"
  by (simp add: hex_digit_def is_ws_def)

lemma ws_hex4: "filter is_ws (hex4 n) = []"
  by (simp add: hex4_def is_ws_hex_digit)

lemma ws_escape_char:
  "length (filter is_ws (escape_char False c)) = (if c = 0x20 then 1 else 0)"
  by (simp add: escape_char_def ws_hex4 ustr_def is_ws_def)

lemma ws_escaped:
  "length (filter is_ws (concat (map (escape_char False) s))) = raw_spaces s"
  by (induction s) (simp_all add: ws_escape_char raw_spaces_def)

lemma ws_encode_basestring:
  "length (filter is_ws (encode_basestring False s)) = raw_spaces s"
  by (simp add: encode_basestring_def ws_escaped is_ws_def)

lemma ws_show_nat: "filter is_ws (show_nat n) = []"
proof (induction n rule: show_nat.induct)
  case (1 n)
  show ?case
  proof (cases "n < 10")
    case True
    then show ?thesis
      by (subst show_nat.simps) (simp add: is_ws_def)
  next
    case False
    have "n mod 10 < 10" by simp
    then have "\<not> is_ws (48 + n mod 10)"
      by (simp add: is_ws_def)
    with False 1 show ?thesis
      by (subst show_nat.simps) simp
  qed
qed

lemma ws_show_int: "filter is_ws (show_int i) = []"
  by (simp add: show_int_def ws_show_nat is_ws_def)

lemma ws_literals:
  "filter is_ws (ustr '','') = []" "filter is_ws (ustr '':'') = []"
  "filter is_ws (ustr ''null'') = []" "filter is_ws (ustr ''true'') = []"
  "filter is_ws (ustr ''false'') = []"
  "\<not> is_ws 0x5B" "\<not> is_ws 0x5D" "\<not> is_ws 0x7B" "\<not> is_ws 0x7D"
  by (simp_all add: ustr_def is_ws_def)

lemma ws_dumps_compact:
  "length (filter is_ws (json_dumps False (ustr '','') (ustr '':'') v)) = spaces_in v"
proof (induction v)
  case JNull
  show ?case by (simp add: ws_literals)
next
  case (JBool b)
  show ?case by (simp add: ws_literals)
next
  case (JInt i)
  show ?case by (simp add: ws_show_int)
next
  case (JFloat r)
  show ?case by simp
next
  case (JStr s)
  show ?case by (simp add: ws_encode_basestring)
next
  case (JList xs)
  have "map (\<lambda>x. length (filter is_ws (json_dumps False (ustr '','') (ustr '':'') x))) xs
      = map spaces_in xs"
    using JList.IH by (simp add: map_eq_conv)
  from arg_cong[OF this, of sum_list] show ?case
    by (simp add: ws_count_join ws_literals comp_def)
next
  case (JTuple xs)
  have "map (\<lambda>x. length (filter is_ws (json_dumps False (ustr '','') (ustr '':'') x))) xs
      = map spaces_in xs"
    using JTuple.IH by (simp add: map_eq_conv)
  from arg_cong[OF this, of sum_list] show ?case
    by (simp add: ws_count_join ws_literals comp_def)
next
  case (JDict kvs)
  have "map (\<lambda>kv. length (filter is_ws (case kv of (k, v) \<Rightarrow> encode_basestring False k @ ustr '':''
                  @ json_dumps False (ustr '','') (ustr '':'') v))) kvs
      = map (\<lambda>(k, v). raw_spaces k + spaces_in v) kvs"
    unfolding map_eq_conv
  proof
    fix kv assume kv: "kv \<in> set kvs"
    obtain k v where kv_eq: "kv = (k, v)" by (cases kv)
    have "length (filter is_ws (json_dumps False (ustr '','') (ustr '':'') v)) = spaces_in v"
      using JDict.IH[OF kv, of v] by (simp add: kv_eq)
    then show "length (filter is_ws (case kv of (k, v) \<Rightarrow> encode_basestring False k @ ustr '':''
                  @ json_dumps False (ustr '','') (ustr '':'') v))
        = (case kv of (k, v) \<Rightarrow> raw_spaces k + spaces_in v)"
      by (simp add: kv_eq ws_encode_basestring ws_literals)
  qed
  from arg_cong[OF this, of sum_list] show ?case
    by (simp add: ws_count_join ws_literals comp_def)
qed

section \<open>Verification: the encrypted form and the transport\<close>

lemma rsa_encrypt_total:
  "\<exists>ct. rsa_encrypt rnd pt = Inr ct \<and> length ct = 128 * nat \<lceil>real (length pt) / 117\<rceil>"
proof -
  define n where "n = nat \<lceil>real (length pt) / 117\<rceil>"
  obtain pk where pk: "load_rsa_public_key = Inr pk" "key_bytes pk = 128"
    "0 < modulus pk" "modulus pk < 256 ^ 128"
    using load_rsa_public_key_props by blast
  obtain cts where cts: "length cts = length [0..<n]"
    "\<forall>j<length [0..<n].
         pkcs1v15_encrypt pk (rnd ([0..<n] ! j)) (take 117 (drop ([0..<n] ! j * 117) pt))
           = Inr (cts ! j) \<and> length (cts ! j) = 128"
    "rsa_encrypt_loop pk rnd pt [0..<n] [] = Inr ([] @ concat cts)"
    using rsa_encrypt_loop_blocks[OF pk(2,3,4), of "[0..<n]" rnd pt "[]"] by blast
  have "rsa_encrypt rnd pt = Inr (concat cts)"
    unfolding rsa_encrypt_def pk(1) using cts(3) by (simp add: RSA_MAX_PLAIN_BLOCK_def n_def)
  moreover have "\<forall>j<length cts. length (cts ! j) = 128"
    using cts(1,2) by simp
  then have "length (concat cts) = 128 * n"
    using length_concat_const[of cts 128] cts(1) by simp
  ultimately show ?thesis by (simp add: n_def)
qed

lemma encrypt_form_cases:
  "encrypt_form rnd form =
    (case utf8_encode (dumps_compact form) of
       Inl e \<Rightarrow> Inl e
     | Inr json_bytes \<Rightarrow>
         (case rsa_encrypt rnd json_bytes of
            Inl e \<Rightarrow> Inl e
          | Inr encrypted \<Rightarrow> Inr (map unat (b64encode encrypted))))"
  by (simp add: encrypt_form_def)

lemma post_request_encrypted_str:
  assumes "utf8_encode s = Inr bs"
  shows "post_request endpoint (BodyStr s) True =
     Inr \<lparr> url = BASE_URL @ endpoint, body_data = DataBytes bs, http_method = ustr ''POST'',
           headers = [(ustr ''Content-Type'', ustr ''application/json; charset=utf-8''),
                      (ustr ''Accept'', ustr ''application/json, text/plain, */*'')] \<rparr>"
  using assms by (simp add: post_request_def add_header_def dict_set_def Let_def)



text \<open>
  Claim C5.  \<open>encrypt_form\<close> serialises the mapping to compact JSON (separators \<open>,\<close>
  and \<open>:\<close>, nothing escaped but what JSON requires), encodes the text as UTF-8, runs the
  octets through the chunked encryption, which always succeeds and yields
  \<open>128 * ceil(L / 117)\<close> octets, and returns the base64 text of the ciphertext; it fails
  exactly with the error of the UTF-8 encoding.  The serialisation adds no whitespace: the
  only whitespace of the JSON text is what the strings and keys of the mapping hold
  themselves.  The result consists of characters of the base64 alphabet and \<open>=\<close>, all
  ASCII, and posted as an encrypted body it is the request body octet for octet.
\<close>

theorem encrypt_form_pipeline:
  "(\<forall>json_bytes. utf8_encode (json_dumps False (ustr '','') (ustr '':'') form) = Inr json_bytes \<longrightarrow>
      (\<exists>encrypted. rsa_encrypt rnd json_bytes = Inr encrypted
         \<and> length encrypted = 128 * nat \<lceil>real (length json_bytes) / 117\<rceil>
         \<and> encrypt_form rnd form = Inr (map unat (b64encode encrypted))))
   \<and> (\<forall>e. utf8_encode (json_dumps False (ustr '','') (ustr '':'') form) = Inl e \<longrightarrow>
         encrypt_form rnd form = Inl e)
   \<and> length (filter is_ws (json_dumps False (ustr '','') (ustr '':'') form)) = spaces_in form
   \<and> (\<forall>body. encrypt_form rnd form = Inr body \<longrightarrow>
         (\<forall>c\<in>set body. c \<in> set b64_alphabet \<or> c = 61) \<and> (\<forall>c\<in>set body. c < 128)
         \<and> (\<exists>req. post_request endpoint (BodyStr body) True = Inr req
               \<and> body_data req = DataBytes (map of_nat body)))"
proof (intro conjI allI impI)
  fix json_bytes
  assume u: "utf8_encode (json_dumps False (ustr '','') (ustr '':'') form) = Inr json_bytes"
  obtain ct where ct: "rsa_encrypt rnd json_bytes = Inr ct"
    "length ct = 128 * nat \<lceil>real (length json_bytes) / 117\<rceil>"
    using rsa_encrypt_total by blast
  then show "\<exists>encrypted. rsa_encrypt rnd json_bytes = Inr encrypted
         \<and> length encrypted = 128 * nat \<lceil>real (length json_bytes) / 117\<rceil>
         \<and> encrypt_form rnd form = Inr (map unat (b64encode encrypted))"
    using u by (simp add: encrypt_form_cases dumps_compact_def)
next
  fix e
  assume "utf8_encode (json_dumps False (ustr '','') (ustr '':'') form) = Inl e"
  then show "encrypt_form rnd form = Inl e"
    by (simp add: encrypt_form_cases dumps_compact_def)
next
  show "length (filter is_ws (json_dumps False (ustr '','') (ustr '':'') form)) = spaces_in form"
    by (rule ws_dumps_compact)
next
  fix body
  assume b: "encrypt_form rnd form = Inr body"
  then obtain ct where body: "body = map unat (b64encode ct)"
    unfolding encrypt_form_cases by (auto split: sum.splits)
  show "\<forall>c\<in>set body. c \<in> set b64_alphabet \<or> c = 61"
    using b64encode_chars[of ct] by (auto simp: body)
  show "\<forall>c\<in>set body. c < 128"
    using b64encode_ascii[of ct] by (auto simp: body)
  have "utf8_encode body = Inr (map of_nat body)"
    unfolding body using utf8_encode_b64[of ct] by (simp add: comp_def)
  from post_request_encrypted_str[OF this]
  show "\<exists>req. post_request endpoint (BodyStr body) True = Inr req
               \<and> body_data req = DataBytes (map of_nat body)"
    by simp
qed

theorem encrypt_form_pipeline_witness:
  "\<exists>body. encrypt_form (\<lambda>i j. 1) (JDict [(ustr ''a'', JInt 1)]) = Inr body \<and> length body = 172"
proof -
  have u: "utf8_encode (json_dumps False (ustr '','') (ustr '':'') (JDict [(ustr ''a'', JInt 1)]))
      = Inr [0x7B, 0x22, 0x61, 0x22, 0x3A, 0x31, 0x7D]"
    by (simp add: ustr_def encode_basestring_def escape_char_def show_int_def show_nat.simps
        utf8_encode_char_def)
  have "nat \<lceil>real (length [0x7B, 0x22, 0x61, 0x22, 0x3A, 0x31, 0x7D :: byte]) / 117\<rceil> = 1"
    by simp
  with u encrypt_form_pipeline[of "JDict [(ustr ''a'', JInt 1)]" "\<lambda>i j. 1" "[]"]
  obtain ct where "length ct = 128"
    "encrypt_form (\<lambda>i j. 1) (JDict [(ustr ''a'', JInt 1)]) = Inr (map unat (b64encode ct))"
    by auto
  then show ?thesis
    by (simp add: length_b64encode)
qed

section \<open>Verification: the transport and its timeout\<close>









end
